theory Spec2Isabelle
  imports Main "HOL-Library.Word"
begin

section \<open>Data model of package goworker\<close>

text \<open>
  Go's \<open>int\<close> is a two's-complement machine integer; on the 64-bit platforms goworker
  runs on it has 64 bits. It is modelled as a 64-bit word: \<open>+\<close> and \<open>-\<close> wrap silently
  as in Go, \<open>sint\<close> reads the signed value, \<open>\<le>s\<close> and \<open><s\<close> are the signed
  comparisons. \<open>time.Duration\<close> is an \<open>int64\<close> count of nanoseconds. A \<open>float64\<close>
  is carried as its 64-bit pattern: the code below only stores it.
\<close>

type_synonym go_int = "64 word"
type_synonym duration = "64 word"
type_synonym float64 = "64 word"
type_synonym queuesFlag = "string list"
type_synonym intervalFlag = duration

record RedisSettings =
  URI :: string
  Host :: string
  DB :: string
  Scheme :: string
  MasterName :: string
  Sentinels :: "string list"
  Timeout :: duration
  Password :: string

record WorkerSettings =
  QueuesString :: string
  Queues :: queuesFlag
  IntervalFloat :: float64
  Interval :: intervalFlag
  Concurrency :: go_int
  Connections :: go_int
  URI :: string
  Namespace :: string
  ExitOnComplete :: bool
  IsStrict :: bool
  UseNumber :: bool
  RedisSettings :: RedisSettings

text \<open>
  Both records have a field \<open>URI\<close>; they are told apart as \<open>WorkerSettings.URI\<close>
  and \<open>RedisSettings.URI\<close>.

  A value of Go's interface type \<open>error\<close>. The code distinguishes three kinds: the
  error it builds itself with \<open>errors.New\<close>, an error that implements \<open>net.Error\<close>
  (with the answer of its \<open>Timeout()\<close> method), and any other error.
\<close>

datatype error =
    errorString string
  | netError bool string
  | otherError string

text \<open>The test \<open>nerr, ok := err.(net.Error); ok && nerr.Timeout()\<close> of \<open>getConn\<close>.\<close>

fun isNetTimeout :: "error \<Rightarrow> bool" where
  "isNetTimeout (netError t m) = t"
| "isNetTimeout (errorString m) = False"
| "isNetTimeout (otherError m) = False"

text \<open>
  Handles of the objects the package receives from its collaborators. Their struct
  declarations live outside \<open>goworker.go\<close>; a handle is identified by a number, as a
  pointer is by its address.
\<close>

datatype RedisConn = RedisConn nat
datatype logger = Logger nat
datatype poller = Poller nat
datatype worker = Worker nat
datatype Context = Background

text \<open>
  The values returned by \<open>newRedisPool\<close>, \<open>signals\<close> and \<open>poller.poll\<close>: these
  functions are defined outside \<open>goworker.go\<close> and cannot fail, so their results are
  free constructors that remember the arguments of the call and nothing else.
\<close>

datatype ResourcePool = newRedisPool RedisSettings go_int go_int duration
datatype quit = signals
datatype jobs = poll poller duration quit

definition Minute :: duration where
  "Minute = 60000000000"

subsection \<open>Calls to collaborators\<close>

text \<open>
  Every call that leaves \<open>goworker.go\<close> is recorded, oldest first, in the state. The
  trace is what the claims about attempts, discards, pool construction and the
  completion barrier are stated on.
\<close>

datatype call =
    LoggerFromWriterWithMinLevel
  | Flags
  | NewRedisPool RedisSettings go_int go_int duration
  | PoolGet
  | ConnClose RedisConn
  | PoolPut "RedisConn option"
  | PoolClose
  | Signals
  | NewPoller queuesFlag bool
  | PollerPoll poller duration quit
  | NewWorker string queuesFlag
  | WorkerWork worker jobs
  | MonitorWait

text \<open>
  The package-level variables of \<open>goworker.go\<close> (\<open>initMutex\<close> apart: the model is
  sequential, so taking and releasing the mutex changes nothing), and the trace.
  A nil pointer or nil interface is \<open>None\<close>.
\<close>

record state =
  logger :: "logger option"
  pool :: "ResourcePool option"
  ctx :: "Context option"
  initialized :: bool
  workerSettings :: WorkerSettings
  calls :: "call list"

definition record_call :: "call \<Rightarrow> state \<Rightarrow> state" where
  "record_call c s = s\<lparr>calls := calls s @ [c]\<rparr>"

text \<open>The number of pool checkouts (\<open>pool.Get\<close>) in a trace.\<close>

definition checkouts :: "call list \<Rightarrow> nat" where
  "checkouts cs = length (filter (\<lambda>c. c = PoolGet) cs)"

text \<open>
  What the collaborators answer. None of these functions is in \<open>goworker.go\<close>;
  every theorem below holds for all of them.
  \<^item> \<open>seelogLogger\<close>: the result of \<open>seelog.LoggerFromWriterWithMinLevel\<close>;
  \<^item> \<open>flags\<close>: the error of \<open>flags()\<close>, if any, and \<open>workerSettings\<close> as it leaves them;
  \<^item> \<open>isSentinelConnection\<close>: the answer of \<open>isSentinelConnection()\<close>, which reads
    the package state;
  \<^item> \<open>poolGet k\<close>: what the checkout \<open>pool.Get(ctx)\<close> returns when \<open>k\<close> checkouts
    were made before it: an error, or a resource, which the pool's factory makes a
    \<open>*RedisConn\<close>. A checkout that blocks forever is not modelled;
  \<^item> \<open>validateConnection\<close>: the liveness check of a connection;
  \<^item> \<open>newPoller\<close>, \<open>newWorker\<close>: the constructors of the poller and of a worker.
\<close>

record env =
  seelogLogger :: "error + logger"
  flags :: "WorkerSettings \<Rightarrow> error option \<times> WorkerSettings"
  isSentinelConnection :: "state \<Rightarrow> bool"
  poolGet :: "nat \<Rightarrow> error + RedisConn"
  validateConnection :: "RedisConn \<Rightarrow> bool"
  newPoller :: "queuesFlag \<Rightarrow> bool \<Rightarrow> error + poller"
  newWorker :: "string \<Rightarrow> queuesFlag \<Rightarrow> error + worker"

section \<open>Configuration setters\<close>

definition SetSettings :: "WorkerSettings \<Rightarrow> state \<Rightarrow> state" where
  "SetSettings settings s = s\<lparr>workerSettings := settings\<rparr>"

definition SetRedisSettings :: "RedisSettings \<Rightarrow> state \<Rightarrow> state" where
  "SetRedisSettings redisSettings s =
     s\<lparr>workerSettings := (workerSettings s)\<lparr>RedisSettings := redisSettings\<rparr>\<rparr>"

section \<open>Connection acquisition\<close>

text \<open>
  \<open>GetConn\<close> and \<open>getConn\<close> return \<open>(*RedisConn, error)\<close>. Calling a method of the
  nil pool (no \<open>Init\<close> has run yet) dereferences a nil pointer: that panic is the third
  outcome.
\<close>

datatype result = Conn RedisConn | Err error | Panic

function getConn :: "env \<Rightarrow> go_int \<Rightarrow> state \<Rightarrow> result \<times> state" where
  "getConn e attemptsLeft s =
     (if attemptsLeft \<le>s 0 then (Err (errorString ''Unable to get connection''), s)
      else if pool s = None then (Panic, s)
      else
        (case poolGet e (checkouts (calls s)) of
           Inl err \<Rightarrow>
             if isNetTimeout err
             then getConn e (attemptsLeft - 1) (record_call PoolGet s)
             else (Err err, record_call PoolGet s)
         | Inr conn \<Rightarrow>
             if \<not> validateConnection e conn
             then getConn e (attemptsLeft - 1)
                    (record_call (PoolPut None)
                      (record_call (ConnClose conn) (record_call PoolGet s)))
             else (Conn conn, record_call PoolGet s)))"
  by pat_completeness auto
termination
proof -
  have decreases: "0 < sint attemptsLeft \<and> sint (attemptsLeft - 1) < sint attemptsLeft"
    if "\<not> attemptsLeft \<le>s 0" for attemptsLeft :: go_int
  proof -
    from that have pos: "0 < sint attemptsLeft"
      by (simp add: word_sle_eq)
    have "sint attemptsLeft < 2 ^ 63"
      using sint_lt [of attemptsLeft] by simp
    with pos have "signed_take_bit 63 (sint attemptsLeft - 1) = sint attemptsLeft - 1"
      by (simp add: signed_take_bit_int_eq_self)
    then have "sint (attemptsLeft - 1) = sint attemptsLeft - 1"
      by (simp add: sint_word_ariths)
    with pos show ?thesis
      by simp
  qed
  show ?thesis
    by (relation "measure (\<lambda>(e, attemptsLeft, s). nat (sint attemptsLeft))")
      (simp_all add: decreases)
qed

text \<open>The local variable \<open>connectionAttempts\<close> of \<open>GetConn\<close>.\<close>

definition connectionAttempts :: "env \<Rightarrow> state \<Rightarrow> go_int" where
  "connectionAttempts e s =
     (if isSentinelConnection e s then Connections (workerSettings s) + 1 else 1)"

definition GetConn :: "env \<Rightarrow> state \<Rightarrow> result \<times> state" where
  "GetConn e s = getConn e (connectionAttempts e s) s"

text \<open>
  \<open>PutConn\<close> returns nothing; on the nil pool \<open>pool.Put\<close> dereferences a nil pointer,
  and that panic is \<open>None\<close>.
\<close>

definition PutConn :: "RedisConn \<Rightarrow> state \<Rightarrow> state option" where
  "PutConn conn s =
     (if pool s = None then None else Some (record_call (PoolPut (Some conn)) s))"

section \<open>Lifecycle\<close>

text \<open>
  \<open>Init\<close> returns Go's \<open>error\<close>: \<open>None\<close> is \<open>nil\<close>. When the logger cannot be
  built, seelog returns a nil logger with the error, and the assignment
  \<open>logger, err = ...\<close> stores it. \<open>flags()\<close> works on \<open>workerSettings\<close> in place, so
  what it leaves there stays also when it fails.
\<close>

definition Init :: "env \<Rightarrow> state \<Rightarrow> error option \<times> state" where
  "Init e s =
     (if \<not> initialized s then
        (case seelogLogger e of
           Inl err \<Rightarrow> (Some err, (record_call LoggerFromWriterWithMinLevel s)\<lparr>logger := None\<rparr>)
         | Inr l \<Rightarrow>
             let s1 = (record_call LoggerFromWriterWithMinLevel s)\<lparr>logger := Some l\<rparr>;
                 s2 = (record_call Flags s1)\<lparr>workerSettings := snd (flags e (workerSettings s1))\<rparr>
             in
               (case fst (flags e (workerSettings s1)) of
                  Some err \<Rightarrow> (Some err, s2)
                | None \<Rightarrow>
                    let s3 = s2\<lparr>ctx := Some Background\<rparr>;
                        s4 = (if WorkerSettings.URI (workerSettings s3) \<noteq> []
                              then s3\<lparr>workerSettings := (workerSettings s3)
                                     \<lparr>RedisSettings := (RedisSettings (workerSettings s3))
                                        \<lparr>RedisSettings.URI := WorkerSettings.URI (workerSettings s3)\<rparr>\<rparr>\<rparr>
                              else s3);
                        s5 = (record_call
                                (NewRedisPool (RedisSettings (workerSettings s4))
                                   (Connections (workerSettings s4))
                                   (Connections (workerSettings s4)) Minute) s4)
                              \<lparr>pool := Some (newRedisPool (RedisSettings (workerSettings s4))
                                   (Connections (workerSettings s4))
                                   (Connections (workerSettings s4)) Minute)\<rparr>
                    in (None, s5\<lparr>initialized := True\<rparr>)))
      else (None, s))"

definition Close :: "state \<Rightarrow> state" where
  "Close s = (if initialized s then (record_call PoolClose s)\<lparr>initialized := False\<rparr> else s)"

section \<open>Orchestration\<close>

text \<open>\<open>strconv.Itoa\<close>: the decimal representation of an integer.\<close>

definition digitChar :: "nat \<Rightarrow> char" where
  "digitChar d = ''0123456789'' ! (d mod 10)"

fun formatDecimal :: "nat \<Rightarrow> string" where
  "formatDecimal n =
     (if n < 10 then [digitChar n] else formatDecimal (n div 10) @ [digitChar (n mod 10)])"

definition Itoa :: "int \<Rightarrow> string" where
  "Itoa i = (if i < 0 then CHR ''-'' # formatDecimal (nat (- i)) else formatDecimal (nat i))"

text \<open>
  The loop \<open>for id := 0; id < workerSettings.Concurrency; id++\<close> of \<open>Work\<close>, from
  the counter \<open>id\<close> (here \<open>wid\<close>) on. A failing \<open>newWorker\<close> leaves the loop, and \<open>Work\<close>, with the
  error.
\<close>

function Work_loop :: "env \<Rightarrow> jobs \<Rightarrow> go_int \<Rightarrow> state \<Rightarrow> error option \<times> state" where
  "Work_loop e jobs wid s =
     (if wid <s Concurrency (workerSettings s) then
        (case newWorker e (Itoa (sint wid)) (Queues (workerSettings s)) of
           Inl err \<Rightarrow>
             (Some err, record_call (NewWorker (Itoa (sint wid)) (Queues (workerSettings s))) s)
         | Inr worker \<Rightarrow>
             Work_loop e jobs (wid + 1)
               (record_call (WorkerWork worker jobs)
                 (record_call (NewWorker (Itoa (sint wid)) (Queues (workerSettings s))) s)))
      else (None, s))"
  by pat_completeness auto
termination
proof (relation "measure (\<lambda>(e, jobs, wid, s). nat (sint (Concurrency (workerSettings s)) - sint wid))")
  show "wf (measure (\<lambda>(e, jobs, wid, s). nat (sint (Concurrency (workerSettings s)) - sint wid)))"
    by simp
next
  fix e :: env and jobs :: jobs and wid :: go_int and s :: state and worker :: worker
  assume "wid <s Concurrency (workerSettings s)"
  then have less: "sint wid < sint (Concurrency (workerSettings s))"
    by (simp add: word_sless_alt)
  have "sint (Concurrency (workerSettings s)) < 2 ^ 63"
    using sint_lt [of "Concurrency (workerSettings s)"] by simp
  moreover have "- (2 ^ 63) \<le> sint wid"
    using sint_ge [of wid] by simp
  ultimately have "signed_take_bit 63 (sint wid + 1) = sint wid + 1"
    using less by (simp add: signed_take_bit_int_eq_self)
  then have "sint (wid + 1) = sint wid + 1"
    by (simp add: sint_word_ariths)
  with less show "((e, jobs, wid + 1,
        record_call (WorkerWork worker jobs)
          (record_call (NewWorker (Itoa (sint wid)) (Queues (workerSettings s))) s)),
       (e, jobs, wid, s))
      \<in> measure (\<lambda>(e, jobs, wid, s). nat (sint (Concurrency (workerSettings s)) - sint wid))"
    by (simp add: record_call_def)
qed

text \<open>
  \<open>defer Close()\<close> is registered once \<open>Init\<close> has succeeded: \<open>Close\<close> runs at every
  return after that point. \<open>monitor\<close> is the one \<open>sync.WaitGroup\<close> of the invocation.
\<close>

definition Work :: "env \<Rightarrow> state \<Rightarrow> error option \<times> state" where
  "Work e s =
     (case Init e s of
        (Some err, s1) \<Rightarrow> (Some err, s1)
      | (None, s1) \<Rightarrow>
          let s2 = record_call Signals s1;
              s3 = record_call
                     (NewPoller (Queues (workerSettings s2)) (IsStrict (workerSettings s2))) s2
          in
            (case newPoller e (Queues (workerSettings s2)) (IsStrict (workerSettings s2)) of
               Inl err \<Rightarrow> (Some err, Close s3)
             | Inr poller \<Rightarrow>
                 let s4 = record_call (PollerPoll poller (Interval (workerSettings s3)) signals) s3
                 in
                   (case Work_loop e (poll poller (Interval (workerSettings s3)) signals) 0 s4 of
                      (Some err, s5) \<Rightarrow> (Some err, Close s5)
                    | (None, s5) \<Rightarrow> (None, Close (record_call MonitorWait s5)))))"

text \<open>
  Modelled from the spec: \<open>worker.work\<close> and the completion barrier, which are not in
  \<open>goworker.go\<close>. \<open>worker.work(jobs, &monitor)\<close> registers the worker against the
  barrier and starts it, a worker signals the barrier exactly once when it exits, and
  \<open>monitor.Wait()\<close> returns once every registered worker has signalled. So the workers
  that are started in a trace and that no later \<open>monitor.Wait()\<close> has waited for are
  those that may still be running at its end.
\<close>

fun unsignalled :: "worker list \<Rightarrow> call list \<Rightarrow> worker list" where
  "unsignalled ws [] = ws"
| "unsignalled ws (WorkerWork w j # cs) = unsignalled (ws @ [w]) cs"
| "unsignalled ws (MonitorWait # cs) = unsignalled [] cs"
| "unsignalled ws (c # cs) = unsignalled ws cs"

definition running :: "call list \<Rightarrow> worker list" where
  "running cs = unsignalled [] cs"

text \<open>The calls made between two states, and the workers started in a trace.\<close>

definition since :: "state \<Rightarrow> state \<Rightarrow> call list" where
  "since s s' = drop (length (calls s)) (calls s')"

fun started :: "call list \<Rightarrow> worker list" where
  "started [] = []"
| "started (WorkerWork w j # cs) = w # started cs"
| "started (c # cs) = started cs"

section \<open>Predicates the statements are written with\<close>

text \<open>
  A checkout whose outcome makes \<open>getConn\<close> try again: a network timeout, or a
  connection that fails validation.
\<close>

definition retried :: "env \<Rightarrow> nat \<Rightarrow> bool" where
  "retried e k =
     (case poolGet e k of
        Inl err \<Rightarrow> isNetTimeout err
      | Inr conn \<Rightarrow> \<not> validateConnection e conn)"

text \<open>A checkout that fails with a network timeout; \<open>j\<close> such checkouts in a row.\<close>

definition timedOut :: "env \<Rightarrow> nat \<Rightarrow> bool" where
  "timedOut e k = (case poolGet e k of Inl err \<Rightarrow> isNetTimeout err | Inr conn \<Rightarrow> False)"


text \<open>Pools built and pools closed in a trace.\<close>

fun buildsPool :: "call \<Rightarrow> bool" where
  "buildsPool (NewRedisPool rs capacity maxCap idle) = True"
| "buildsPool c = False"

definition poolsBuilt :: "call list \<Rightarrow> nat" where
  "poolsBuilt cs = length (filter buildsPool cs)"

definition poolsClosed :: "call list \<Rightarrow> nat" where
  "poolsClosed cs = length (filter (\<lambda>c. c = PoolClose) cs)"

section \<open>Configurations and collaborators used as examples\<close>

text \<open>
  The zero values of Go, the state of a process that has just started, and the two
  configurations of the specification: a direct address with three workers and two
  connections, and a sentinel address with two monitors and five connections.
\<close>

definition zeroRedisSettings :: RedisSettings where
  "zeroRedisSettings = \<lparr>RedisSettings.URI = [], Host = [], DB = [], Scheme = [],
     MasterName = [], Sentinels = [], Timeout = 0, Password = []\<rparr>"

definition zeroWorkerSettings :: WorkerSettings where
  "zeroWorkerSettings = \<lparr>QueuesString = [], Queues = [], IntervalFloat = 0, Interval = 0,
     Concurrency = 0, Connections = 0, URI = [], Namespace = [], ExitOnComplete = False,
     IsStrict = False, UseNumber = False, RedisSettings = zeroRedisSettings\<rparr>"

definition fresh :: state where
  "fresh = \<lparr>logger = None, pool = None, ctx = None, initialized = False,
     workerSettings = zeroWorkerSettings, calls = []\<rparr>"

definition sentinelAddress :: RedisSettings where
  "sentinelAddress = zeroRedisSettings\<lparr>MasterName := ''mymaster'',
     Sentinels := [''10.0.0.1:26379'', ''10.0.0.2:26379''], Timeout := 1000000000\<rparr>"

definition scenarioB :: WorkerSettings where
  "scenarioB = zeroWorkerSettings\<lparr>Queues := [''a''], Interval := 1000000000,
     Concurrency := 1, Connections := 5, RedisSettings := sentinelAddress\<rparr>"

definition scenarioA :: WorkerSettings where
  "scenarioA = zeroWorkerSettings\<lparr>QueuesString := ''a,b'', Queues := [''a'', ''b''],
     Interval := 1000000000, Concurrency := 3, Connections := 2,
     RedisSettings := zeroRedisSettings\<lparr>Host := ''localhost:6379''\<rparr>\<rparr>"

definition topLevel :: WorkerSettings where
  "topLevel = scenarioA\<lparr>URI := ''redis://primary:6379/''\<rparr>"

definition credentials :: RedisSettings where
  "credentials = zeroRedisSettings\<lparr>RedisSettings.URI := ''redis://replica:6379/'',
     Password := ''secret''\<rparr>"

text \<open>
  Collaborators: \<open>failover\<close> times out on the first five checkouts; \<open>recovering\<close>
  times out until checkout \<open>2^63 - 1\<close>; \<open>saturated\<close> always times out on a direct
  address; \<open>stale\<close> hands out a dead connection first; \<open>refusing\<close> times out twice and
  then refuses the credentials; \<open>crew\<close> can build workers \<open>0\<close>, \<open>1\<close> and \<open>2\<close>,
  \<open>shorthanded\<close> only \<open>0\<close> and \<open>1\<close>, \<open>interrupted\<close> only \<open>0\<close>.
\<close>

definition failover :: env where
  "failover = \<lparr>seelogLogger = Inr (Logger 0),
     flags = (\<lambda>ws. (None, ws)),
     isSentinelConnection = (\<lambda>s. Sentinels (RedisSettings (workerSettings s)) \<noteq> []),
     poolGet = (\<lambda>k. if k < 5 then Inl (netError True ''i/o timeout'') else Inr (RedisConn k)),
     validateConnection = (\<lambda>conn. True),
     newPoller = (\<lambda>queues strict. Inr (Poller 0)),
     newWorker = (\<lambda>ident queues. Inr (Worker (length ident)))\<rparr>"


definition saturated :: env where
  "saturated = failover\<lparr>isSentinelConnection := (\<lambda>s. False),
     poolGet := (\<lambda>k. Inl (netError True ''i/o timeout''))\<rparr>"

definition stale :: env where
  "stale = failover\<lparr>poolGet := (\<lambda>k. Inr (RedisConn k)),
     validateConnection := (\<lambda>conn. conn \<noteq> RedisConn 0)\<rparr>"

definition refusing :: env where
  "refusing = failover\<lparr>
     poolGet := (\<lambda>k. if k < 2 then Inl (netError True ''i/o timeout'')
                     else Inl (otherError ''NOAUTH Authentication required'')),
     validateConnection := (\<lambda>conn. True)\<rparr>"

definition crew :: env where
  "crew = failover\<lparr>isSentinelConnection := (\<lambda>s. False),
     newWorker := (\<lambda>ident queues.
        if ident = ''0'' then Inr (Worker 100)
        else if ident = ''1'' then Inr (Worker 101)
        else if ident = ''2'' then Inr (Worker 102)
        else Inl (otherError ''hostname unavailable''))\<rparr>"

definition shorthanded :: env where
  "shorthanded = crew\<lparr>newWorker := (\<lambda>ident queues.
        if ident = ''0'' then Inr (Worker 100)
        else if ident = ''1'' then Inr (Worker 101)
        else Inl (otherError ''hostname unavailable''))\<rparr>"

definition interrupted :: env where
  "interrupted = crew\<lparr>newWorker := (\<lambda>ident queues.
        if ident = ''0'' then Inr (Worker 100)
        else Inl (otherError ''hostname unavailable''))\<rparr>"

text \<open>States: after \<open>Init\<close> on the sentinel configuration, with the largest connection
  count, and with the direct configuration before and after \<open>Init\<close>.\<close>

definition established :: state where
  "established = snd (Init failover (SetSettings scenarioB fresh))"


definition scheduled :: state where
  "scheduled = SetSettings scenarioA fresh"

definition ready :: state where
  "ready = snd (Init crew scheduled)"

section \<open>Facts about the model\<close>

declare getConn.simps [simp del]
declare Work_loop.simps [simp del]
declare formatDecimal.simps [simp del]

subsection \<open>Signed arithmetic and traces\<close>

lemma sint_pred:
  fixes n :: go_int
  assumes "\<not> n \<le>s 0"
  shows "sint (n - 1) = sint n - 1"
proof -
  from assms have pos: "0 < sint n"
    by (simp add: word_sle_eq)
  have upper: "sint n < 2 ^ 63"
    using sint_lt [of n] by simp
  have "sint (n - 1) = signed_take_bit 63 (sint n - 1)"
    by (simp add: sint_word_ariths)
  also have "\<dots> = sint n - 1"
    using pos upper by (simp add: signed_take_bit_int_eq_self)
  finally show ?thesis .
qed

lemma sint_positive: "0 < sint n \<Longrightarrow> \<not> n \<le>s 0"
  by (simp add: word_sle_eq)

lemma sint_of_nat:
  "k < 2 ^ 63 \<Longrightarrow> sint (of_nat k :: go_int) = int k"
  by (simp add: signed_of_nat signed_take_bit_int_eq_self)

lemma checkouts_append [simp]: "checkouts (xs @ ys) = checkouts xs + checkouts ys"
  by (simp add: checkouts_def)

lemma checkouts_simps [simp]:
  "checkouts [] = 0"
  "checkouts (PoolGet # cs) = Suc (checkouts cs)"
  "checkouts (ConnClose c # cs) = checkouts cs"
  "checkouts (PoolPut r # cs) = checkouts cs"
  by (simp_all add: checkouts_def)

lemma checkouts_replicate [simp]: "checkouts (replicate j PoolGet) = j"
  by (induction j) simp_all

lemma record_call_fields [simp]:
  "calls (record_call c s) = calls s @ [c]"
  "pool (record_call c s) = pool s"
  "logger (record_call c s) = logger s"
  "ctx (record_call c s) = ctx s"
  "initialized (record_call c s) = initialized s"
  "workerSettings (record_call c s) = workerSettings s"
  by (simp_all add: record_call_def)

lemma since_append [simp]: "calls s' = calls s @ cs \<Longrightarrow> since s s' = cs"
  by (simp add: since_def)

lemma unsignalled_append:
  "unsignalled ws (xs @ ys) = unsignalled (unsignalled ws xs) ys"
  by (induction ws xs rule: unsignalled.induct) simp_all

lemma started_append:
  "started (xs @ ys) = started xs @ started ys"
  by (induction xs rule: started.induct) simp_all

lemma started_workers:
  "started (concat (map (\<lambda>i. [NewWorker (f i) qs, WorkerWork (w i) jobs]) [k..<n]))
     = map w [k..<n]"
proof (induction "n - k" arbitrary: k)
  case 0
  then show ?case by simp
next
  case (Suc d)
  then have "k < n" by simp
  with Suc.hyps(1) [of "Suc k"] Suc.hyps(2) show ?case
    by (simp add: upt_conv_Cons)
qed

lemma unsignalled_workers:
  "unsignalled ws (concat (map (\<lambda>i. [NewWorker (f i) qs, WorkerWork (w i) jobs]) [k..<n]))
     = ws @ map w [k..<n]"
proof (induction "n - k" arbitrary: k ws)
  case 0
  then show ?case by simp
next
  case (Suc d)
  then have "k < n" by simp
  with Suc.hyps(1) [of "Suc k" "ws @ [w k]"] Suc.hyps(2) show ?case
    by (simp add: upt_conv_Cons)
qed

lemma Itoa_digits:
  "Itoa 0 = ''0''" "Itoa 1 = ''1''" "Itoa 2 = ''2''" "Itoa 12 = ''12''" "Itoa (- 7) = ''-7''"
  "Itoa 9223372036854775807 = ''9223372036854775807''"
  by (simp_all add: Itoa_def formatDecimal.simps digitChar_def)

subsection \<open>One call of \<open>getConn\<close>\<close>

lemma getConn_exhausted:
  "n \<le>s 0 \<Longrightarrow> getConn e n s = (Err (errorString ''Unable to get connection''), s)"
  by (simp add: getConn.simps [of e n s])

lemma getConn_panic:
  "\<not> n \<le>s 0 \<Longrightarrow> pool s = None \<Longrightarrow> getConn e n s = (Panic, s)"
  by (simp add: getConn.simps [of e n s])

lemma getConn_timeout:
  "\<not> n \<le>s 0 \<Longrightarrow> pool s = Some p \<Longrightarrow> poolGet e (checkouts (calls s)) = Inl err \<Longrightarrow>
   isNetTimeout err \<Longrightarrow> getConn e n s = getConn e (n - 1) (record_call PoolGet s)"
  by (simp add: getConn.simps [of e n s])

lemma getConn_error:
  "\<not> n \<le>s 0 \<Longrightarrow> pool s = Some p \<Longrightarrow> poolGet e (checkouts (calls s)) = Inl err \<Longrightarrow>
   \<not> isNetTimeout err \<Longrightarrow> getConn e n s = (Err err, record_call PoolGet s)"
  by (simp add: getConn.simps [of e n s])

lemma getConn_invalid:
  "\<not> n \<le>s 0 \<Longrightarrow> pool s = Some p \<Longrightarrow> poolGet e (checkouts (calls s)) = Inr conn \<Longrightarrow>
   \<not> validateConnection e conn \<Longrightarrow>
   getConn e n s = getConn e (n - 1)
     (record_call (PoolPut None) (record_call (ConnClose conn) (record_call PoolGet s)))"
  by (simp add: getConn.simps [of e n s])

lemma getConn_valid:
  "\<not> n \<le>s 0 \<Longrightarrow> pool s = Some p \<Longrightarrow> poolGet e (checkouts (calls s)) = Inr conn \<Longrightarrow>
   validateConnection e conn \<Longrightarrow> getConn e n s = (Conn conn, record_call PoolGet s)"
  by (simp add: getConn.simps [of e n s])

lemma timedOut_error:
  "timedOut e k \<Longrightarrow> \<exists>err. poolGet e k = Inl err \<and> isNetTimeout err"
  by (cases "poolGet e k") (simp_all add: timedOut_def)

subsection \<open>Runs of \<open>getConn\<close>\<close>

lemma getConn_returns_valid:
  "fst (getConn e n s) = Conn c \<Longrightarrow> validateConnection e c"
proof (induction e n s rule: getConn.induct)
  case (1 e attemptsLeft s)
  show ?case
  proof (cases "attemptsLeft \<le>s 0 \<or> pool s = None")
    case True
    with "1.prems" show ?thesis
      by (auto simp: getConn.simps [of e attemptsLeft s] split: if_splits)
  next
    case False
    then obtain p where live: "\<not> attemptsLeft \<le>s 0" "pool s = Some p"
      by auto
    show ?thesis
    proof (cases "poolGet e (checkouts (calls s))")
      case (Inl err)
      with live "1.prems" "1.IH"(1) show ?thesis
        by (cases "isNetTimeout err") (simp_all add: getConn_timeout getConn_error)
    next
      case (Inr conn)
      with live "1.prems" "1.IH"(2) show ?thesis
        by (cases "validateConnection e conn") (simp_all add: getConn_invalid getConn_valid)
    qed
  qed
qed

lemma getConn_attempts:
  "int (checkouts (calls (snd (getConn e n s)))) \<le> int (checkouts (calls s)) + max 0 (sint n)"
proof (induction e n s rule: getConn.induct)
  case (1 e attemptsLeft s)
  show ?case
  proof (cases "attemptsLeft \<le>s 0 \<or> pool s = None")
    case True
    then show ?thesis
      by (auto simp: getConn.simps [of e attemptsLeft s])
  next
    case False
    then obtain p where live: "\<not> attemptsLeft \<le>s 0" "pool s = Some p"
      by auto
    from live(1) have pos: "0 < sint attemptsLeft"
      by (simp add: word_sle_eq)
    note pred = sint_pred [OF live(1)]
    show ?thesis
    proof (cases "poolGet e (checkouts (calls s))")
      case (Inl err)
      show ?thesis
      proof (cases "isNetTimeout err")
        case True
        with live Inl "1.IH"(1) pos pred show ?thesis
          by (simp add: getConn_timeout)
      next
        case False
        with live Inl pos show ?thesis
          by (simp add: getConn_error)
      qed
    next
      case (Inr conn)
      show ?thesis
      proof (cases "validateConnection e conn")
        case False
        with live Inr "1.IH"(2) pos pred show ?thesis
          by (simp add: getConn_invalid)
      next
        case True
        with live Inr pos show ?thesis
          by (simp add: getConn_valid)
      qed
    qed
  qed
qed

lemma getConn_retried:
  assumes "pool s = Some p" and "int j \<le> sint n"
    and "\<forall>k<j. retried e (checkouts (calls s) + k)"
  shows "\<exists>s'. getConn e n s = getConn e (n - of_nat j) s'
           \<and> checkouts (calls s') = checkouts (calls s) + j \<and> pool s' = Some p"
  using assms
proof (induction j arbitrary: n s)
  case 0
  then show ?case by auto
next
  case (Suc j)
  from Suc.prems(2) have live: "\<not> n \<le>s 0"
    by (simp add: sint_positive)
  note pred = sint_pred [OF live]
  from Suc.prems(3) [rule_format, of 0] have first: "retried e (checkouts (calls s))"
    by simp
  have rest: "\<forall>k<j. retried e (Suc (checkouts (calls s)) + k)"
  proof (intro allI impI)
    fix k
    assume "k < j"
    with Suc.prems(3) [rule_format, of "Suc k"] show "retried e (Suc (checkouts (calls s)) + k)"
      by simp
  qed
  have budget: "int j \<le> sint (n - 1)"
    using Suc.prems(2) pred by simp
  have arith: "n - 1 - of_nat j = n - of_nat (Suc j)"
    by simp
  show ?case
  proof (cases "poolGet e (checkouts (calls s))")
    case (Inl err)
    with first have "isNetTimeout err"
      by (simp add: retried_def)
    with live Suc.prems(1) Inl
    have step: "getConn e n s = getConn e (n - 1) (record_call PoolGet s)"
      by (simp add: getConn_timeout)
    from Suc.IH [of "record_call PoolGet s" "n - 1"] Suc.prems(1) budget rest
    obtain s' where "getConn e (n - 1) (record_call PoolGet s) = getConn e (n - 1 - of_nat j) s'"
      and "checkouts (calls s') = Suc (checkouts (calls s)) + j" and "pool s' = Some p"
      by auto
    with step arith show ?thesis
      by auto
  next
    case (Inr conn)
    let ?s1 = "record_call (PoolPut None) (record_call (ConnClose conn) (record_call PoolGet s))"
    from Inr first have "\<not> validateConnection e conn"
      by (simp add: retried_def)
    with live Suc.prems(1) Inr
    have step: "getConn e n s = getConn e (n - 1) ?s1"
      by (simp add: getConn_invalid)
    from Suc.IH [of ?s1 "n - 1"] Suc.prems(1) budget rest
    obtain s' where "getConn e (n - 1) ?s1 = getConn e (n - 1 - of_nat j) s'"
      and "checkouts (calls s') = Suc (checkouts (calls s)) + j" and "pool s' = Some p"
      by auto
    with step arith show ?thesis
      by auto
  qed
qed



subsection \<open>\<open>Init\<close> and \<open>Work\<close>\<close>

lemma Init_initialized:
  "initialized s \<Longrightarrow> Init e s = (None, s)"
  by (simp add: Init_def)

lemma Init_first:
  assumes "\<not> initialized s" and "seelogLogger e = Inr l"
    and "flags e (workerSettings s) = (None, ws)"
  shows "Init e s =
    (None,
     s\<lparr>logger := Some l,
       ctx := Some Background,
       workerSettings :=
         (if WorkerSettings.URI ws \<noteq> []
          then ws\<lparr>RedisSettings := (RedisSettings ws)\<lparr>RedisSettings.URI := WorkerSettings.URI ws\<rparr>\<rparr>
          else ws),
       pool := Some (newRedisPool
         (if WorkerSettings.URI ws \<noteq> []
          then (RedisSettings ws)\<lparr>RedisSettings.URI := WorkerSettings.URI ws\<rparr>
          else RedisSettings ws) (Connections ws) (Connections ws) Minute),
       initialized := True,
       calls := calls s @ [LoggerFromWriterWithMinLevel, Flags,
         NewRedisPool
           (if WorkerSettings.URI ws \<noteq> []
            then (RedisSettings ws)\<lparr>RedisSettings.URI := WorkerSettings.URI ws\<rparr>
            else RedisSettings ws) (Connections ws) (Connections ws) Minute]\<rparr>)"
  using assms by (simp add: Init_def record_call_def Let_def)

lemma Init_succeeded:
  "Init e s = (None, s1) \<Longrightarrow> initialized s1"
  by (auto simp: Init_def Let_def split: if_splits sum.splits option.splits)

lemma Init_calls:
  "\<exists>cs. calls (snd (Init e s)) = calls s @ cs"
  by (simp add: Init_def Let_def record_call_def split: sum.splits option.splits)

lemma Work_loop_done:
  "\<not> wid <s Concurrency (workerSettings s) \<Longrightarrow> Work_loop e jobs wid s = (None, s)"
  by (simp add: Work_loop.simps [of e jobs wid s])

lemma Work_loop_fail:
  "wid <s Concurrency (workerSettings s) \<Longrightarrow>
   newWorker e (Itoa (sint wid)) (Queues (workerSettings s)) = Inl err \<Longrightarrow>
   Work_loop e jobs wid s
     = (Some err, record_call (NewWorker (Itoa (sint wid)) (Queues (workerSettings s))) s)"
  by (simp add: Work_loop.simps [of e jobs wid s])

lemma Work_loop_start:
  "wid <s Concurrency (workerSettings s) \<Longrightarrow>
   newWorker e (Itoa (sint wid)) (Queues (workerSettings s)) = Inr worker \<Longrightarrow>
   Work_loop e jobs wid s
     = Work_loop e jobs (wid + 1)
         (record_call (WorkerWork worker jobs)
           (record_call (NewWorker (Itoa (sint wid)) (Queues (workerSettings s))) s))"
  by (simp add: Work_loop.simps [of e jobs wid s])

lemma Work_loop_all:
  assumes "Concurrency (workerSettings s) = N" and "Queues (workerSettings s) = qs"
    and "\<forall>i<nat (sint N). newWorker e (Itoa (int i)) qs = Inr (w i)"
    and "k \<le> nat (sint N)"
  shows "Work_loop e jobs (of_nat k) s =
    (None, s\<lparr>calls := calls s
       @ concat (map (\<lambda>i. [NewWorker (Itoa (int i)) qs, WorkerWork (w i) jobs])
           [k..<nat (sint N)])\<rparr>)"
  using assms
proof (induction "nat (sint N) - k" arbitrary: k s)
  case 0
  then have k: "k = nat (sint N)"
    by simp
  have "\<not> (of_nat k :: go_int) <s N"
  proof (cases "0 \<le> sint N")
    case True
    then have "(of_nat k :: go_int) = N"
      by (simp add: k)
    then show ?thesis
      by (simp add: word_sless_alt)
  next
    case False
    then show ?thesis
      by (simp add: k word_sless_alt)
  qed
  with "0.prems"(1) have "Work_loop e jobs (of_nat k) s = (None, s)"
    by (simp add: Work_loop_done)
  then show ?case
    by (simp add: k)
next
  case (Suc d)
  then have less: "k < nat (sint N)"
    by simp
  have bound: "nat (sint N) < 2 ^ 63"
    using sint_lt [of N] by simp
  with less have val: "sint (of_nat k :: go_int) = int k"
    by (simp add: sint_of_nat)
  with less have cond: "(of_nat k :: go_int) <s Concurrency (workerSettings s)"
    by (simp add: word_sless_alt Suc.prems(1))
  from Suc.prems(3) less have made: "newWorker e (Itoa (int k)) qs = Inr (w k)"
    by simp
  let ?s' = "record_call (WorkerWork (w k) jobs) (record_call (NewWorker (Itoa (int k)) qs) s)"
  from cond made val Suc.prems(2)
  have "Work_loop e jobs (of_nat k) s = Work_loop e jobs (of_nat k + 1) ?s'"
    using Work_loop_start [of "of_nat k" s e "w k" jobs] by simp
  also have "(of_nat k :: go_int) + 1 = of_nat (Suc k)"
    by simp
  also have "Work_loop e jobs (of_nat (Suc k)) ?s' =
    (None, ?s'\<lparr>calls := calls ?s'
       @ concat (map (\<lambda>i. [NewWorker (Itoa (int i)) qs, WorkerWork (w i) jobs])
           [Suc k..<nat (sint N)])\<rparr>)"
    using Suc.hyps(2) less Suc.prems(1,2,3)
    by (intro Suc.hyps(1)) simp_all
  also have "?s'\<lparr>calls := calls ?s'
       @ concat (map (\<lambda>i. [NewWorker (Itoa (int i)) qs, WorkerWork (w i) jobs])
           [Suc k..<nat (sint N)])\<rparr>
     = s\<lparr>calls := calls s
       @ concat (map (\<lambda>i. [NewWorker (Itoa (int i)) qs, WorkerWork (w i) jobs])
           [k..<nat (sint N)])\<rparr>"
    using less by (simp add: record_call_def upt_conv_Cons)
  finally show ?case .
qed

lemma Work_loop_calls:
  "\<exists>cs. calls (snd (Work_loop e jobs wid s)) = calls s @ cs"
proof (induction e jobs wid s rule: Work_loop.induct)
  case (1 e jobs wid s)
  show ?case
  proof (cases "wid <s Concurrency (workerSettings s)")
    case False
    then show ?thesis
      by (simp add: Work_loop_done)
  next
    case True
    show ?thesis
    proof (cases "newWorker e (Itoa (sint wid)) (Queues (workerSettings s))")
      case (Inl err)
      with True show ?thesis
        by (simp add: Work_loop_fail)
    next
      case (Inr worker)
      with True "1.IH" [OF True Inr] show ?thesis
        by (auto simp: Work_loop_start)
    qed
  qed
qed

lemma Work_completes:
  assumes "Init e s = (None, s1)"
    and "newPoller e (Queues (workerSettings s1)) (IsStrict (workerSettings s1)) = Inr p"
    and "\<forall>i<nat (sint (Concurrency (workerSettings s1))).
           newWorker e (Itoa (int i)) (Queues (workerSettings s1)) = Inr (w i)"
  shows "Work e s =
      (None,
       s1\<lparr>calls := calls s1
            @ [Signals,
               NewPoller (Queues (workerSettings s1)) (IsStrict (workerSettings s1)),
               PollerPoll p (Interval (workerSettings s1)) signals]
            @ concat (map (\<lambda>i. [NewWorker (Itoa (int i)) (Queues (workerSettings s1)),
                                 WorkerWork (w i) (poll p (Interval (workerSettings s1)) signals)])
                [0..<nat (sint (Concurrency (workerSettings s1)))])
            @ [MonitorWait, PoolClose],
          initialized := False\<rparr>)"
proof -
  let ?ws = "workerSettings s1"
  let ?jobs = "poll p (Interval ?ws) signals"
  let ?n = "nat (sint (Concurrency ?ws))"
  let ?s4 = "record_call (PollerPoll p (Interval ?ws) signals)
      (record_call (NewPoller (Queues ?ws) (IsStrict ?ws)) (record_call Signals s1))"
  let ?loop = "concat (map (\<lambda>i. [NewWorker (Itoa (int i)) (Queues ?ws), WorkerWork (w i) ?jobs])
      [0..<?n])"
  have "Work_loop e ?jobs (of_nat 0) ?s4 = (None, ?s4\<lparr>calls := calls ?s4 @ ?loop\<rparr>)"
    using assms(3) by (intro Work_loop_all) simp_all
  then have loop: "Work_loop e ?jobs 0 ?s4 = (None, ?s4\<lparr>calls := calls ?s4 @ ?loop\<rparr>)"
    by simp
  have live: "initialized s1"
    using assms(1) by (rule Init_succeeded)
  show ?thesis
    using assms(1,2) loop live by (simp add: Work_def Let_def Close_def record_call_def)
qed

lemma Work_loop_stops:
  assumes "Concurrency (workerSettings s) = N" and "Queues (workerSettings s) = qs"
    and "\<forall>i<m. newWorker e (Itoa (int i)) qs = Inr (w i)"
    and "newWorker e (Itoa (int m)) qs = Inl err"
    and "int m < sint N" and "k \<le> m"
  shows "Work_loop e jobs (of_nat k) s =
    (Some err, s\<lparr>calls := calls s
       @ concat (map (\<lambda>i. [NewWorker (Itoa (int i)) qs, WorkerWork (w i) jobs]) [k..<m])
       @ [NewWorker (Itoa (int m)) qs]\<rparr>)"
  using assms
proof (induction "m - k" arbitrary: k s)
  case 0
  then have k: "k = m"
    by simp
  have bound: "m < 2 ^ 63"
    using "0.prems"(5) sint_lt [of N] by simp
  then have val: "sint (of_nat m :: go_int) = int m"
    by (rule sint_of_nat)
  with "0.prems"(1,5) have cond: "(of_nat m :: go_int) <s Concurrency (workerSettings s)"
    by (simp add: word_sless_alt)
  from "0.prems"(2,4) val
  have "newWorker e (Itoa (sint (of_nat m :: go_int))) (Queues (workerSettings s)) = Inl err"
    by simp
  from Work_loop_fail [OF cond this, of jobs] val "0.prems"(2) show ?case
    by (simp add: k record_call_def)
next
  case (Suc d)
  then have less: "k < m"
    by simp
  have bound: "k < 2 ^ 63"
    using less Suc.prems(5) sint_lt [of N] by simp
  then have val: "sint (of_nat k :: go_int) = int k"
    by (rule sint_of_nat)
  with less Suc.prems(1,5) have cond: "(of_nat k :: go_int) <s Concurrency (workerSettings s)"
    by (simp add: word_sless_alt)
  from Suc.prems(3) less have made: "newWorker e (Itoa (int k)) qs = Inr (w k)"
    by simp
  let ?s' = "record_call (WorkerWork (w k) jobs) (record_call (NewWorker (Itoa (int k)) qs) s)"
  from cond made val Suc.prems(2)
  have "Work_loop e jobs (of_nat k) s = Work_loop e jobs (of_nat k + 1) ?s'"
    using Work_loop_start [of "of_nat k" s e "w k" jobs] by simp
  also have "(of_nat k :: go_int) + 1 = of_nat (Suc k)"
    by simp
  also have "Work_loop e jobs (of_nat (Suc k)) ?s' =
    (Some err, ?s'\<lparr>calls := calls ?s'
       @ concat (map (\<lambda>i. [NewWorker (Itoa (int i)) qs, WorkerWork (w i) jobs]) [Suc k..<m])
       @ [NewWorker (Itoa (int m)) qs]\<rparr>)"
    using Suc.hyps(2) less Suc.prems(1,2,3,4,5)
    by (intro Suc.hyps(1)) simp_all
  also have "?s'\<lparr>calls := calls ?s'
       @ concat (map (\<lambda>i. [NewWorker (Itoa (int i)) qs, WorkerWork (w i) jobs]) [Suc k..<m])
       @ [NewWorker (Itoa (int m)) qs]\<rparr>
     = s\<lparr>calls := calls s
       @ concat (map (\<lambda>i. [NewWorker (Itoa (int i)) qs, WorkerWork (w i) jobs]) [k..<m])
       @ [NewWorker (Itoa (int m)) qs]\<rparr>"
    using less by (simp add: record_call_def upt_conv_Cons)
  finally show ?case .
qed

lemma Work_aborts:
  assumes "Init e s = (None, s1)"
    and "newPoller e (Queues (workerSettings s1)) (IsStrict (workerSettings s1)) = Inr p"
    and "int m < sint (Concurrency (workerSettings s1))"
    and "\<forall>i<m. newWorker e (Itoa (int i)) (Queues (workerSettings s1)) = Inr (w i)"
    and "newWorker e (Itoa (int m)) (Queues (workerSettings s1)) = Inl err"
  shows "Work e s =
      (Some err,
       s1\<lparr>calls := calls s1
            @ [Signals,
               NewPoller (Queues (workerSettings s1)) (IsStrict (workerSettings s1)),
               PollerPoll p (Interval (workerSettings s1)) signals]
            @ concat (map (\<lambda>i. [NewWorker (Itoa (int i)) (Queues (workerSettings s1)),
                                 WorkerWork (w i) (poll p (Interval (workerSettings s1)) signals)])
                [0..<m])
            @ [NewWorker (Itoa (int m)) (Queues (workerSettings s1)), PoolClose],
          initialized := False\<rparr>)"
proof -
  let ?ws = "workerSettings s1"
  let ?jobs = "poll p (Interval ?ws) signals"
  let ?s4 = "record_call (PollerPoll p (Interval ?ws) signals)
      (record_call (NewPoller (Queues ?ws) (IsStrict ?ws)) (record_call Signals s1))"
  let ?loop = "concat (map (\<lambda>i. [NewWorker (Itoa (int i)) (Queues ?ws), WorkerWork (w i) ?jobs])
      [0..<m]) @ [NewWorker (Itoa (int m)) (Queues ?ws)]"
  have "Work_loop e ?jobs (of_nat 0) ?s4 = (Some err, ?s4\<lparr>calls := calls ?s4 @ ?loop\<rparr>)"
    using assms(3,4,5) by (intro Work_loop_stops) simp_all
  then have loop: "Work_loop e ?jobs 0 ?s4 = (Some err, ?s4\<lparr>calls := calls ?s4 @ ?loop\<rparr>)"
    by simp
  have live: "initialized s1"
    using assms(1) by (rule Init_succeeded)
  show ?thesis
    using assms(1,2) loop live by (simp add: Work_def Let_def Close_def record_call_def)
qed

lemma Work_nil_waited:
  assumes ok: "fst (Work e s) = None"
  shows "running (since s (snd (Work e s))) = []"
proof -
  obtain r s1 where init: "Init e s = (r, s1)"
    by (cases "Init e s")
  from Init_calls [of e s] init obtain c1 where c1: "calls s1 = calls s @ c1"
    by auto
  let ?ws = "workerSettings s1"
  let ?s3 = "record_call (NewPoller (Queues ?ws) (IsStrict ?ws)) (record_call Signals s1)"
  from ok init have r: "r = None"
    by (cases r) (simp_all add: Work_def)
  from ok init r obtain p where p: "newPoller e (Queues ?ws) (IsStrict ?ws) = Inr p"
    by (cases "newPoller e (Queues ?ws) (IsStrict ?ws)") (simp_all add: Work_def Let_def)
  let ?jobs = "poll p (Interval ?ws) signals"
  let ?s4 = "record_call (PollerPoll p (Interval ?ws) signals) ?s3"
  obtain r' s5 where loop: "Work_loop e ?jobs 0 ?s4 = (r', s5)"
    by (cases "Work_loop e ?jobs 0 ?s4")
  from ok init r p loop have r': "r' = None"
    by (cases r') (simp_all add: Work_def Let_def)
  from Work_loop_calls [of e ?jobs 0 ?s4] loop obtain c5 where c5: "calls s5 = calls ?s4 @ c5"
    by auto
  from init r p loop r' have final: "snd (Work e s) = Close (record_call MonitorWait s5)"
    by (simp add: Work_def Let_def)
  have "\<exists>rest. since s (snd (Work e s))
      = (c1 @ [Signals, NewPoller (Queues ?ws) (IsStrict ?ws),
               PollerPoll p (Interval ?ws) signals] @ c5) @ MonitorWait # rest
      \<and> (rest = [] \<or> rest = [PoolClose])"
    unfolding final by (simp add: Close_def since_def c1 c5)
  then obtain pre rest where "since s (snd (Work e s)) = pre @ MonitorWait # rest"
    and "rest = [] \<or> rest = [PoolClose]"
    by blast
  then show "running (since s (snd (Work e s))) = []"
    by (auto simp: running_def unsignalled_append)
qed

subsection \<open>The example states\<close>

lemma established_fields:
  "pool established = Some (newRedisPool sentinelAddress 5 5 Minute)"
  "workerSettings established = scenarioB"
  "calls established = [LoggerFromWriterWithMinLevel, Flags, NewRedisPool sentinelAddress 5 5 Minute]"
  "initialized established"
  by (simp_all add: established_def Init_def SetSettings_def fresh_def failover_def
      record_call_def scenarioB_def zeroWorkerSettings_def Let_def)

lemma scheduled_fields:
  "workerSettings scheduled = scenarioA" "calls scheduled = []" "\<not> initialized scheduled"
  by (simp_all add: scheduled_def SetSettings_def fresh_def)

lemma ready_Init:
  "Init crew scheduled = (None, ready)"
  "workerSettings ready = scenarioA"
  by (simp_all add: ready_def Init_def Let_def record_call_def scheduled_def SetSettings_def
      fresh_def crew_def failover_def scenarioA_def zeroWorkerSettings_def)

lemma interrupted_Init:
  "Init interrupted scheduled = (None, ready)"
  by (simp add: ready_def Init_def Let_def record_call_def scheduled_def SetSettings_def
      fresh_def crew_def interrupted_def failover_def scenarioA_def zeroWorkerSettings_def)

lemma crew_workers:
  "\<forall>i<nat (sint (Concurrency (workerSettings ready))).
     newWorker crew (Itoa (int i)) (Queues (workerSettings ready)) = Inr (Worker (100 + i))"
proof (intro allI impI)
  fix i
  assume "i < nat (sint (Concurrency (workerSettings ready)))"
  then have "i = 0 \<or> i = 1 \<or> i = 2"
    by (auto simp: ready_Init scenarioA_def)
  then show "newWorker crew (Itoa (int i)) (Queues (workerSettings ready))
      = Inr (Worker (100 + i))"
    by (auto simp: crew_def Itoa_digits)
qed

section \<open>Connection acquisition: the attempt budget\<close>




text \<open>
  C2. For a store address that is not a sentinel one, whatever the connection count,
  \<open>GetConn\<close> makes at most one checkout, and if that checkout times out \<open>GetConn\<close>
  fails with \<open>Unable to get connection\<close> after that single checkout.
\<close>

theorem GetConn_direct_budget:
  assumes "\<not> isSentinelConnection e s"
  shows "checkouts (calls (snd (GetConn e s))) \<le> checkouts (calls s) + 1
       \<and> (\<forall>p. pool s = Some p \<and> timedOut e (checkouts (calls s))
            \<longrightarrow> GetConn e s
                = (Err (errorString ''Unable to get connection''), record_call PoolGet s))"
proof (intro conjI allI impI)
  from assms have budget: "connectionAttempts e s = 1"
    by (simp add: connectionAttempts_def)
  show "checkouts (calls (snd (GetConn e s))) \<le> checkouts (calls s) + 1"
    using getConn_attempts [of e 1 s] by (simp add: GetConn_def budget)
  fix p
  assume h: "pool s = Some p \<and> timedOut e (checkouts (calls s))"
  then obtain err where err: "poolGet e (checkouts (calls s)) = Inl err" "isNetTimeout err"
    using timedOut_error by blast
  have "\<not> (1::go_int) \<le>s 0"
    by (simp add: word_sle_eq)
  with h err have "getConn e 1 s = getConn e (1 - 1) (record_call PoolGet s)"
    by (simp add: getConn_timeout)
  then show "GetConn e s = (Err (errorString ''Unable to get connection''), record_call PoolGet s)"
    by (simp add: GetConn_def budget getConn_exhausted)
qed

text \<open>The theorem on a direct address with five connections configured.\<close>

theorem GetConn_direct_budget_witness:
  "\<not> isSentinelConnection saturated established
   \<and> sint (Connections (workerSettings established)) = 5
   \<and> timedOut saturated (checkouts (calls established))
   \<and> GetConn saturated established
       = (Err (errorString ''Unable to get connection''), record_call PoolGet established)"
proof -
  have direct: "\<not> isSentinelConnection saturated established"
    by (simp add: saturated_def)
  have timeout: "timedOut saturated (checkouts (calls established))"
    by (simp add: timedOut_def saturated_def)
  from GetConn_direct_budget [OF direct] timeout show ?thesis
    by (simp add: established_fields scenarioB_def direct)
qed

section \<open>Connection acquisition: discards and errors\<close>

text \<open>
  C5. When a checkout returns a connection that fails validation, \<open>getConn\<close> makes the
  checkout, closes the connection, puts \<open>nil\<close> back into the pool, and goes on with one
  attempt less; the invalid connection is not what it returns, and no connection that
  \<open>GetConn\<close> returns fails validation.
\<close>

theorem getConn_discards_invalid:
  assumes "\<not> attemptsLeft \<le>s 0" and "pool s = Some p"
    and "poolGet e (checkouts (calls s)) = Inr conn" and "\<not> validateConnection e conn"
  shows "getConn e attemptsLeft s
           = getConn e (attemptsLeft - 1)
               (s\<lparr>calls := calls s @ [PoolGet, ConnClose conn, PoolPut None]\<rparr>)
       \<and> sint (attemptsLeft - 1) = sint attemptsLeft - 1
       \<and> fst (getConn e attemptsLeft s) \<noteq> Conn conn
       \<and> (\<forall>c. fst (GetConn e s) = Conn c \<longrightarrow> validateConnection e c)"
proof (intro conjI allI impI)
  have trace: "record_call (PoolPut None) (record_call (ConnClose conn) (record_call PoolGet s))
      = s\<lparr>calls := calls s @ [PoolGet, ConnClose conn, PoolPut None]\<rparr>"
    by (simp add: record_call_def)
  show "getConn e attemptsLeft s
      = getConn e (attemptsLeft - 1)
          (s\<lparr>calls := calls s @ [PoolGet, ConnClose conn, PoolPut None]\<rparr>)"
    using getConn_invalid [OF assms] unfolding trace .
  show "sint (attemptsLeft - 1) = sint attemptsLeft - 1"
    using assms(1) by (rule sint_pred)
  show "fst (getConn e attemptsLeft s) \<noteq> Conn conn"
    using assms(4) getConn_returns_valid by blast
  fix c
  assume "fst (GetConn e s) = Conn c"
  then show "validateConnection e c"
    unfolding GetConn_def by (rule getConn_returns_valid)
qed

text \<open>The theorem when the first checkout of a budget of 6 hands out a dead connection.\<close>

theorem getConn_discards_invalid_witness:
  "\<not> (6::go_int) \<le>s 0 \<and> poolGet stale (checkouts (calls established)) = Inr (RedisConn 0)
   \<and> \<not> validateConnection stale (RedisConn 0)
   \<and> getConn stale 6 established
       = getConn stale 5
           (established\<lparr>calls := calls established
              @ [PoolGet, ConnClose (RedisConn 0), PoolPut None]\<rparr>)
   \<and> fst (getConn stale 6 established) \<noteq> Conn (RedisConn 0)"
proof -
  have live: "\<not> (6::go_int) \<le>s 0"
    by (simp add: word_sle_eq)
  have base: "checkouts (calls established) = 0"
    by (simp add: established_fields checkouts_def)
  have got: "poolGet stale (checkouts (calls established)) = Inr (RedisConn 0)"
    by (simp add: base stale_def)
  have invalid: "\<not> validateConnection stale (RedisConn 0)"
    by (simp add: stale_def)
  note discard = getConn_discards_invalid [OF live established_fields(1) got invalid]
  have "(6::go_int) - 1 = 5"
    by simp
  with discard have retry: "getConn stale 6 established
      = getConn stale 5
          (established\<lparr>calls := calls established
             @ [PoolGet, ConnClose (RedisConn 0), PoolPut None]\<rparr>)"
    by metis
  from discard have "fst (getConn stale 6 established) \<noteq> Conn (RedisConn 0)"
    by blast
  with live got invalid retry show ?thesis
    by blast
qed

text \<open>
  C6. When a checkout fails with an error that is not a network timeout, after any
  number \<open>j\<close> of retried checkouts and whatever budget remains, \<open>getConn\<close> and
  \<open>GetConn\<close> return that very error, and that checkout is the last one.
\<close>

theorem getConn_error_not_retried:
  assumes "pool s = Some p"
    and "\<forall>k<j. retried e (checkouts (calls s) + k)"
    and "poolGet e (checkouts (calls s) + j) = Inl err" and "\<not> isNetTimeout err"
  shows "(int j < sint attemptsLeft \<longrightarrow>
            fst (getConn e attemptsLeft s) = Err err
            \<and> checkouts (calls (snd (getConn e attemptsLeft s))) = checkouts (calls s) + j + 1)
       \<and> (int j < sint (connectionAttempts e s) \<longrightarrow>
            fst (GetConn e s) = Err err
            \<and> checkouts (calls (snd (GetConn e s))) = checkouts (calls s) + j + 1)"
proof -
  have general: "fst (getConn e n s) = Err err
      \<and> checkouts (calls (snd (getConn e n s))) = checkouts (calls s) + j + 1"
    if budget: "int j < sint n" for n
  proof -
    from getConn_retried [of s p j n e] assms(1,2) budget
    obtain s' where run: "getConn e n s = getConn e (n - of_nat j) s'"
      and count: "checkouts (calls s') = checkouts (calls s) + j" and pool: "pool s' = Some p"
      by auto
    have "sint (n - of_nat j) = signed_take_bit 63 (sint n - signed_take_bit 63 (int j))"
      by (simp add: sint_word_ariths signed_of_nat)
    moreover have "int j < 2 ^ 63"
      using budget sint_lt [of n] by simp
    then have "signed_take_bit 63 (int j) = int j"
      by (simp add: signed_take_bit_int_eq_self)
    moreover have "signed_take_bit 63 (sint n - int j) = sint n - int j"
      using budget sint_lt [of n] by (simp add: signed_take_bit_int_eq_self)
    ultimately have "0 < sint (n - of_nat j)"
      using budget by simp
    then have live: "\<not> n - of_nat j \<le>s 0"
      by (rule sint_positive)
    from assms(3,4) count have "getConn e (n - of_nat j) s' = (Err err, record_call PoolGet s')"
      by (intro getConn_error [OF live pool]) simp_all
    with run count show ?thesis
      by simp
  qed
  from general [of attemptsLeft] general [of "connectionAttempts e s"] show ?thesis
    by (simp add: GetConn_def)
qed

text \<open>The theorem for two timeouts followed by an authentication error, with a budget of 6.\<close>

theorem getConn_error_not_retried_witness:
  "retried refusing 0 \<and> retried refusing 1
   \<and> poolGet refusing 2 = Inl (otherError ''NOAUTH Authentication required'')
   \<and> sint (connectionAttempts refusing established) = 6
   \<and> fst (GetConn refusing established) = Err (otherError ''NOAUTH Authentication required'')
   \<and> checkouts (calls (snd (GetConn refusing established))) = 3"
proof -
  have base: "checkouts (calls established) = 0"
    by (simp add: established_fields checkouts_def)
  have first: "\<forall>k<2. retried refusing (checkouts (calls established) + k)"
    by (simp add: base retried_def refusing_def)
  have third: "poolGet refusing (checkouts (calls established) + 2)
      = Inl (otherError ''NOAUTH Authentication required'')"
    by (simp add: base refusing_def)
  have budget: "sint (connectionAttempts refusing established) = 6"
    by (simp add: connectionAttempts_def established_fields scenarioB_def refusing_def
        failover_def sentinelAddress_def)
  from getConn_error_not_retried [OF established_fields(1) first third, of 6] budget base
  show ?thesis
    by (simp add: retried_def refusing_def)
qed

text \<open>
  C10. \<open>getConn\<close> is a total function: its recursion is accepted with the measure
  \<open>sint attemptsLeft\<close>. It returns the error at once when the counter is not
  positive, a retry calls it with the counter decreased by one, which is smaller and
  not negative, and from a budget that is not negative it makes at most that many
  checkouts.
\<close>

theorem getConn_bounded:
  "(attemptsLeft \<le>s 0 \<longrightarrow>
      getConn e attemptsLeft s = (Err (errorString ''Unable to get connection''), s))
   \<and> (\<not> attemptsLeft \<le>s 0 \<longrightarrow>
        0 \<le> sint (attemptsLeft - 1) \<and> sint (attemptsLeft - 1) < sint attemptsLeft)
   \<and> (\<not> attemptsLeft \<le>s 0 \<and> pool s \<noteq> None \<and> retried e (checkouts (calls s)) \<longrightarrow>
        (\<exists>s'. getConn e attemptsLeft s = getConn e (attemptsLeft - 1) s'))
   \<and> (0 \<le> sint attemptsLeft \<longrightarrow>
        checkouts (calls (snd (getConn e attemptsLeft s)))
          \<le> checkouts (calls s) + nat (sint attemptsLeft))"
proof (intro conjI impI)
  assume "attemptsLeft \<le>s 0"
  then show "getConn e attemptsLeft s = (Err (errorString ''Unable to get connection''), s)"
    by (rule getConn_exhausted)
next
  assume live: "\<not> attemptsLeft \<le>s 0"
  then have "0 < sint attemptsLeft"
    by (simp add: word_sle_eq)
  with sint_pred [OF live] show "0 \<le> sint (attemptsLeft - 1)"
    and "sint (attemptsLeft - 1) < sint attemptsLeft"
    by simp_all
next
  assume h: "\<not> attemptsLeft \<le>s 0 \<and> pool s \<noteq> None \<and> retried e (checkouts (calls s))"
  then obtain p where p: "pool s = Some p"
    by auto
  have "int 1 \<le> sint attemptsLeft"
    using h by (simp add: word_sle_eq)
  with getConn_retried [of s p 1 attemptsLeft e] p h
  show "\<exists>s'. getConn e attemptsLeft s = getConn e (attemptsLeft - 1) s'"
    by auto
next
  assume "0 \<le> sint attemptsLeft"
  with getConn_attempts [of e attemptsLeft s]
  show "checkouts (calls (snd (getConn e attemptsLeft s)))
      \<le> checkouts (calls s) + nat (sint attemptsLeft)"
    by simp
qed

text \<open>The theorem at budgets 6 and 0, when every checkout times out.\<close>

theorem getConn_bounded_witness:
  "\<not> (6::go_int) \<le>s 0 \<and> sint (6 - 1 :: go_int) < sint (6::go_int)
   \<and> (0::go_int) \<le>s 0 
   \<and> getConn saturated 0 established = (Err (errorString ''Unable to get connection''), established)
   \<and> retried saturated (checkouts (calls established))
   \<and> (\<exists>s'. getConn saturated 6 established = getConn saturated (6 - 1) s')
   \<and> checkouts (calls (snd (getConn saturated 6 established))) \<le> 6"
proof -
  have live: "\<not> (6::go_int) \<le>s 0" and none: "(0::go_int) \<le>s 0"
    by (simp_all add: word_sle_eq)
  have base: "checkouts (calls established) = 0"
    by (simp add: established_fields checkouts_def)
  have again: "retried saturated (checkouts (calls established))"
    by (simp add: retried_def saturated_def)
  from getConn_bounded [of 6 saturated established] getConn_bounded [of 0 saturated established]
    live none again base
  show ?thesis
    by (simp add: established_fields(1))
qed

section \<open>Lifecycle and configuration\<close>

text \<open>
  C3. \<open>Init\<close> and \<open>Close\<close> are idempotent. From an uninitialized state in which the
  logger can be built and \<open>flags\<close> succeeds, \<open>Init\<close> succeeds, a second \<open>Init\<close>
  succeeds too, changes nothing and calls no collaborator (whatever they would answer),
  and the two calls build exactly one pool. From any state, the second of two \<open>Close\<close>
  changes nothing, the two close the pool at most once, and the state is uninitialized.
\<close>

theorem lifecycle_idempotent:
  "(\<not> initialized s \<and> seelogLogger e = Inr l \<and> fst (flags e (workerSettings s)) = None \<longrightarrow>
      fst (Init e s) = None
      \<and> Init e' (snd (Init e s)) = (None, snd (Init e s))
      \<and> initialized (snd (Init e s))
      \<and> pool (snd (Init e s)) \<noteq> None
      \<and> poolsBuilt (since s (snd (Init e' (snd (Init e s))))) = 1)
   \<and> Close (Close t) = Close t
   \<and> \<not> initialized (Close (Close t))
   \<and> poolsClosed (since t (Close (Close t))) \<le> 1"
proof (intro conjI impI)
  assume h: "\<not> initialized s \<and> seelogLogger e = Inr l \<and> fst (flags e (workerSettings s)) = None"
  then have flags: "flags e (workerSettings s) = (None, snd (flags e (workerSettings s)))"
    by (simp add: prod_eq_iff)
  note first = Init_first [OF _ _ flags, of l]
  from h first show "fst (Init e s) = None"
    by simp
  from h first show initialized: "initialized (snd (Init e s))"
    by simp
  then show again: "Init e' (snd (Init e s)) = (None, snd (Init e s))"
    by (rule Init_initialized)
  from h first show "pool (snd (Init e s)) \<noteq> None"
    by simp
  from h first show "poolsBuilt (since s (snd (Init e' (snd (Init e s))))) = 1"
    unfolding again by (simp add: poolsBuilt_def)
next
  show "Close (Close t) = Close t"
    by (simp add: Close_def)
  show "\<not> initialized (Close (Close t))"
    by (simp add: Close_def)
  show "poolsClosed (since t (Close (Close t))) \<le> 1"
    by (simp add: Close_def poolsClosed_def since_def)
qed

text \<open>The theorem on the direct configuration.\<close>

theorem lifecycle_idempotent_witness:
  "\<not> initialized (SetSettings scenarioA fresh)
   \<and> seelogLogger failover = Inr (Logger 0)
   \<and> fst (flags failover (workerSettings (SetSettings scenarioA fresh))) = None
   \<and> fst (Init failover (SetSettings scenarioA fresh)) = None
   \<and> Init saturated (snd (Init failover (SetSettings scenarioA fresh)))
       = (None, snd (Init failover (SetSettings scenarioA fresh)))
   \<and> poolsBuilt (since (SetSettings scenarioA fresh)
        (snd (Init saturated (snd (Init failover (SetSettings scenarioA fresh)))))) = 1
   \<and> \<not> initialized (Close (Close (snd (Init failover (SetSettings scenarioA fresh)))))"
proof -
  have start: "\<not> initialized (SetSettings scenarioA fresh)"
    by (simp add: SetSettings_def fresh_def)
  have env: "seelogLogger failover = Inr (Logger 0)"
    "fst (flags failover (workerSettings (SetSettings scenarioA fresh))) = None"
    by (simp_all add: failover_def)
  from lifecycle_idempotent [of "SetSettings scenarioA fresh" failover "Logger 0" saturated
      "snd (Init failover (SetSettings scenarioA fresh))"] start env
  show ?thesis
    by blast
qed

text \<open>
  C8. \<open>SetRedisSettings\<close> replaces the field \<open>RedisSettings\<close> of the settings and
  nothing else, \<open>SetSettings\<close> replaces the settings and nothing else, for every
  argument: neither rejects a value nor calls a collaborator.
\<close>

theorem setters_frame:
  "workerSettings (SetRedisSettings redisSettings s)
     = (workerSettings s)\<lparr>RedisSettings := redisSettings\<rparr>
   \<and> RedisSettings (workerSettings (SetRedisSettings redisSettings s)) = redisSettings
   \<and> QueuesString (workerSettings (SetRedisSettings redisSettings s))
       = QueuesString (workerSettings s)
   \<and> Queues (workerSettings (SetRedisSettings redisSettings s)) = Queues (workerSettings s)
   \<and> IntervalFloat (workerSettings (SetRedisSettings redisSettings s))
       = IntervalFloat (workerSettings s)
   \<and> Interval (workerSettings (SetRedisSettings redisSettings s)) = Interval (workerSettings s)
   \<and> Concurrency (workerSettings (SetRedisSettings redisSettings s))
       = Concurrency (workerSettings s)
   \<and> Connections (workerSettings (SetRedisSettings redisSettings s))
       = Connections (workerSettings s)
   \<and> WorkerSettings.URI (workerSettings (SetRedisSettings redisSettings s))
       = WorkerSettings.URI (workerSettings s)
   \<and> Namespace (workerSettings (SetRedisSettings redisSettings s)) = Namespace (workerSettings s)
   \<and> ExitOnComplete (workerSettings (SetRedisSettings redisSettings s))
       = ExitOnComplete (workerSettings s)
   \<and> IsStrict (workerSettings (SetRedisSettings redisSettings s)) = IsStrict (workerSettings s)
   \<and> UseNumber (workerSettings (SetRedisSettings redisSettings s)) = UseNumber (workerSettings s)
   \<and> SetRedisSettings redisSettings s
       = s\<lparr>workerSettings := workerSettings (SetRedisSettings redisSettings s)\<rparr>
   \<and> workerSettings (SetSettings settings s) = settings
   \<and> SetSettings settings s = s\<lparr>workerSettings := settings\<rparr>
   \<and> calls (SetRedisSettings redisSettings s) = calls s
   \<and> calls (SetSettings settings s) = calls s"
  by (simp add: SetRedisSettings_def SetSettings_def)

text \<open>
  C9. In the first successful \<open>Init\<close>, when the top-level \<open>URI\<close> that \<open>flags\<close>
  leaves in the settings is not empty, the pool is built with that \<open>URI\<close> in place of
  the one of \<open>RedisSettings\<close>, whatever was given to \<open>SetRedisSettings\<close> before.
\<close>

theorem Init_top_level_URI:
  assumes "\<not> initialized s" and "seelogLogger e = Inr l"
    and "flags e (workerSettings (SetRedisSettings redisSettings s)) = (None, ws)"
    and "WorkerSettings.URI ws \<noteq> []"
  shows "fst (Init e (SetRedisSettings redisSettings s)) = None
       \<and> pool (snd (Init e (SetRedisSettings redisSettings s)))
           = Some (newRedisPool ((RedisSettings ws)\<lparr>RedisSettings.URI := WorkerSettings.URI ws\<rparr>)
               (Connections ws) (Connections ws) Minute)
       \<and> since (SetRedisSettings redisSettings s) (snd (Init e (SetRedisSettings redisSettings s)))
           = [LoggerFromWriterWithMinLevel, Flags,
              NewRedisPool ((RedisSettings ws)\<lparr>RedisSettings.URI := WorkerSettings.URI ws\<rparr>)
                (Connections ws) (Connections ws) Minute]
       \<and> RedisSettings.URI (RedisSettings (workerSettings
             (snd (Init e (SetRedisSettings redisSettings s))))) = WorkerSettings.URI ws
       \<and> WorkerSettings.URI (workerSettings (snd (Init e (SetRedisSettings redisSettings s))))
           = WorkerSettings.URI ws"
proof -
  have "\<not> initialized (SetRedisSettings redisSettings s)"
    using assms(1) by (simp add: SetRedisSettings_def)
  from Init_first [OF this assms(2,3)] assms(4) show ?thesis
    by simp
qed

text \<open>
  The theorem when \<open>SetRedisSettings\<close> gave the address of a replica and the top-level
  \<open>URI\<close> names the primary.
\<close>

theorem Init_top_level_URI_witness:
  "\<not> initialized (SetSettings topLevel fresh)
   \<and> RedisSettings.URI credentials = ''redis://replica:6379/''
   \<and> WorkerSettings.URI topLevel = ''redis://primary:6379/''
   \<and> pool (snd (Init failover (SetRedisSettings credentials (SetSettings topLevel fresh))))
       = Some (newRedisPool (credentials\<lparr>RedisSettings.URI := ''redis://primary:6379/''\<rparr>) 2 2 Minute)"
proof -
  let ?ws = "topLevel\<lparr>RedisSettings := credentials\<rparr>"
  have start: "\<not> initialized (SetSettings topLevel fresh)"
    by (simp add: SetSettings_def fresh_def)
  have env: "seelogLogger failover = Inr (Logger 0)"
    "flags failover (workerSettings (SetRedisSettings credentials (SetSettings topLevel fresh)))
      = (None, ?ws)"
    by (simp_all add: failover_def SetRedisSettings_def SetSettings_def)
  have uri: "WorkerSettings.URI ?ws = ''redis://primary:6379/''"
    by (simp add: topLevel_def)
  then have set: "WorkerSettings.URI ?ws \<noteq> []"
    by simp
  from Init_top_level_URI [OF start env set]
  have "pool (snd (Init failover (SetRedisSettings credentials (SetSettings topLevel fresh))))
      = Some (newRedisPool ((RedisSettings ?ws)\<lparr>RedisSettings.URI := WorkerSettings.URI ?ws\<rparr>)
          (Connections ?ws) (Connections ?ws) Minute)"
    by blast
  moreover have "(RedisSettings ?ws)\<lparr>RedisSettings.URI := WorkerSettings.URI ?ws\<rparr>
      = credentials\<lparr>RedisSettings.URI := ''redis://primary:6379/''\<rparr>"
    by (simp add: topLevel_def)
  moreover have "Connections ?ws = 2"
    by (simp add: topLevel_def scenarioA_def)
  ultimately have "pool (snd (Init failover (SetRedisSettings credentials (SetSettings topLevel fresh))))
      = Some (newRedisPool (credentials\<lparr>RedisSettings.URI := ''redis://primary:6379/''\<rparr>) 2 2 Minute)"
    by simp
  moreover have "RedisSettings.URI credentials = ''redis://replica:6379/''"
    by (simp add: credentials_def)
  moreover have "WorkerSettings.URI topLevel = ''redis://primary:6379/''"
    by (simp add: topLevel_def)
  ultimately show ?thesis
    using start by blast
qed

section \<open>Orchestration\<close>

text \<open>
  C7, as amended. When \<open>Init\<close>, the construction of the poller and the construction
  of every worker succeed, \<open>Work\<close> with \<open>Concurrency = N\<close> builds and starts exactly
  \<open>N\<close> workers, with the identities \<open>Itoa 0\<close> to \<open>Itoa (N - 1)\<close> in this order, each
  on the job stream of the one poller, then waits on the barrier and closes the pool.
\<close>

theorem Work_starts_workers:
  assumes "Init e s = (None, s1)"
    and "newPoller e (Queues (workerSettings s1)) (IsStrict (workerSettings s1)) = Inr p"
    and "\<forall>i<nat (sint (Concurrency (workerSettings s1))).
           newWorker e (Itoa (int i)) (Queues (workerSettings s1)) = Inr (w i)"
  shows "fst (Work e s) = None
    \<and> since s1 (snd (Work e s))
        = [Signals,
           NewPoller (Queues (workerSettings s1)) (IsStrict (workerSettings s1)),
           PollerPoll p (Interval (workerSettings s1)) signals]
          @ concat (map (\<lambda>i. [NewWorker (Itoa (int i)) (Queues (workerSettings s1)),
                               WorkerWork (w i) (poll p (Interval (workerSettings s1)) signals)])
              [0..<nat (sint (Concurrency (workerSettings s1)))])
          @ [MonitorWait, PoolClose]
    \<and> started (since s1 (snd (Work e s)))
        = map w [0..<nat (sint (Concurrency (workerSettings s1)))]
    \<and> length (started (since s1 (snd (Work e s))))
        = nat (sint (Concurrency (workerSettings s1)))"
proof -
  note result = Work_completes [OF assms]
  then have trace: "since s1 (snd (Work e s))
      = [Signals,
         NewPoller (Queues (workerSettings s1)) (IsStrict (workerSettings s1)),
         PollerPoll p (Interval (workerSettings s1)) signals]
        @ concat (map (\<lambda>i. [NewWorker (Itoa (int i)) (Queues (workerSettings s1)),
                             WorkerWork (w i) (poll p (Interval (workerSettings s1)) signals)])
            [0..<nat (sint (Concurrency (workerSettings s1)))])
        @ [MonitorWait, PoolClose]"
    by (simp add: since_def)
  then have "started (since s1 (snd (Work e s)))
      = map w [0..<nat (sint (Concurrency (workerSettings s1)))]"
    by (simp add: started_append started_workers)
  with result trace show ?thesis
    by simp
qed

text \<open>The theorem on the direct configuration: workers \<open>0\<close>, \<open>1\<close> and \<open>2\<close>.\<close>

theorem Work_starts_workers_witness:
  "Init crew scheduled = (None, ready)
   \<and> newPoller crew (Queues (workerSettings ready)) (IsStrict (workerSettings ready))
       = Inr (Poller 0)
   \<and> sint (Concurrency (workerSettings ready)) = 3
   \<and> fst (Work crew scheduled) = None
   \<and> since ready (snd (Work crew scheduled))
       = [Signals, NewPoller [''a'', ''b''] False, PollerPoll (Poller 0) 1000000000 signals,
          NewWorker ''0'' [''a'', ''b''],
          WorkerWork (Worker 100) (poll (Poller 0) 1000000000 signals),
          NewWorker ''1'' [''a'', ''b''],
          WorkerWork (Worker 101) (poll (Poller 0) 1000000000 signals),
          NewWorker ''2'' [''a'', ''b''],
          WorkerWork (Worker 102) (poll (Poller 0) 1000000000 signals),
          MonitorWait, PoolClose]
   \<and> started (since ready (snd (Work crew scheduled))) = [Worker 100, Worker 101, Worker 102]"
proof -
  have poller: "newPoller crew (Queues (workerSettings ready)) (IsStrict (workerSettings ready))
      = Inr (Poller 0)"
    by (simp add: crew_def failover_def)
  have count: "sint (Concurrency (workerSettings ready)) = 3"
    by (simp add: ready_Init scenarioA_def)
  have range: "[0..<(3::nat)] = [0, 1, 2]"
    by (simp add: eval_nat_numeral upt_conv_Cons)
  from Work_starts_workers [OF ready_Init(1) poller crew_workers] ready_Init(1) poller count
  show ?thesis
    by (simp add: range Itoa_digits ready_Init(2) scenarioA_def zeroWorkerSettings_def)
qed

text \<open>
  C7 as stated fails when \<open>Init\<close> and the poller succeed and a worker cannot be built:
  with \<open>Concurrency = 3\<close> and no worker \<open>2\<close>, \<open>Work\<close> starts two workers and
  returns the error.
\<close>

theorem Work_starts_fewer_counterexample:
  "fst (Init shorthanded scheduled) = None
   \<and> newPoller shorthanded (Queues (workerSettings scheduled)) (IsStrict (workerSettings scheduled))
       = Inr (Poller 0)
   \<and> sint (Concurrency (workerSettings scheduled)) = 3
   \<and> fst (Work shorthanded scheduled) = Some (otherError ''hostname unavailable'')
   \<and> started (since scheduled (snd (Work shorthanded scheduled))) = [Worker 100, Worker 101]"
  by (simp add: Work_def Init_def Let_def record_call_def scheduled_def SetSettings_def fresh_def
      crew_def failover_def scenarioA_def zeroWorkerSettings_def shorthanded_def Close_def
      Work_loop.simps Itoa_def formatDecimal.simps digitChar_def word_sless_alt since_def)

text \<open>
  C4, as amended. When \<open>Work\<close> returns \<open>nil\<close>, it has waited on the completion
  barrier after the last worker it started: no worker of this invocation can still be
  running when it returns. When the construction of worker \<open>m\<close> fails, after \<open>Init\<close>,
  the poller and the workers \<open>0\<close> to \<open>m - 1\<close> were built and started, \<open>Work\<close> returns
  that error at once: after the failed construction it only closes the pool, it does not
  wait on the barrier, and the \<open>m\<close> workers it started have not been waited for.
\<close>

theorem Work_waits_for_workers:
  "(fst (Work e s) = None \<longrightarrow> running (since s (snd (Work e s))) = [])
   \<and> (Init e s = (None, s1)
      \<and> newPoller e (Queues (workerSettings s1)) (IsStrict (workerSettings s1)) = Inr p
      \<and> int m < sint (Concurrency (workerSettings s1))
      \<and> (\<forall>i<m. newWorker e (Itoa (int i)) (Queues (workerSettings s1)) = Inr (w i))
      \<and> newWorker e (Itoa (int m)) (Queues (workerSettings s1)) = Inl err
      \<longrightarrow> fst (Work e s) = Some err
        \<and> since s1 (snd (Work e s))
            = [Signals,
               NewPoller (Queues (workerSettings s1)) (IsStrict (workerSettings s1)),
               PollerPoll p (Interval (workerSettings s1)) signals]
              @ concat (map (\<lambda>i. [NewWorker (Itoa (int i)) (Queues (workerSettings s1)),
                                   WorkerWork (w i) (poll p (Interval (workerSettings s1)) signals)])
                  [0..<m])
              @ [NewWorker (Itoa (int m)) (Queues (workerSettings s1)), PoolClose]
        \<and> MonitorWait \<notin> set (since s1 (snd (Work e s)))
        \<and> started (since s1 (snd (Work e s))) = map w [0..<m]
        \<and> running (since s1 (snd (Work e s))) = map w [0..<m])"
proof (intro conjI impI)
  assume "fst (Work e s) = None"
  then show "running (since s (snd (Work e s))) = []"
    by (rule Work_nil_waited)
next
  let ?ws = "workerSettings s1"
  let ?loop = "concat (map (\<lambda>i. [NewWorker (Itoa (int i)) (Queues ?ws),
      WorkerWork (w i) (poll p (Interval ?ws) signals)]) [0..<m])"
  assume h: "Init e s = (None, s1)
      \<and> newPoller e (Queues ?ws) (IsStrict ?ws) = Inr p
      \<and> int m < sint (Concurrency ?ws)
      \<and> (\<forall>i<m. newWorker e (Itoa (int i)) (Queues ?ws) = Inr (w i))
      \<and> newWorker e (Itoa (int m)) (Queues ?ws) = Inl err"
  then have result: "Work e s =
      (Some err,
       s1\<lparr>calls := calls s1
            @ [Signals, NewPoller (Queues ?ws) (IsStrict ?ws), PollerPoll p (Interval ?ws) signals]
            @ ?loop @ [NewWorker (Itoa (int m)) (Queues ?ws), PoolClose],
          initialized := False\<rparr>)"
    by (intro Work_aborts) simp_all
  then show "fst (Work e s) = Some err"
    by simp
  from result show trace: "since s1 (snd (Work e s))
      = [Signals, NewPoller (Queues ?ws) (IsStrict ?ws), PollerPoll p (Interval ?ws) signals]
        @ ?loop @ [NewWorker (Itoa (int m)) (Queues ?ws), PoolClose]"
    by (simp add: since_def)
  show "MonitorWait \<notin> set (since s1 (snd (Work e s)))"
    unfolding trace by auto
  show "started (since s1 (snd (Work e s))) = map w [0..<m]"
    unfolding trace by (simp add: started_append started_workers)
  show "running (since s1 (snd (Work e s))) = map w [0..<m]"
    unfolding trace running_def by (simp add: unsignalled_append unsignalled_workers)
qed

text \<open>
  The theorem on the direct configuration: with every worker built \<open>Work\<close> returns
  \<open>nil\<close> and nobody is left running; with no worker \<open>1\<close> it returns the error with
  worker \<open>0\<close> still running and no wait on the barrier.
\<close>

theorem Work_waits_for_workers_witness:
  "fst (Work crew scheduled) = None
   \<and> running (since scheduled (snd (Work crew scheduled))) = []
   \<and> Init interrupted scheduled = (None, ready)
   \<and> newPoller interrupted (Queues (workerSettings ready)) (IsStrict (workerSettings ready))
       = Inr (Poller 0)
   \<and> int 1 < sint (Concurrency (workerSettings ready))
   \<and> newWorker interrupted (Itoa (int 0)) (Queues (workerSettings ready)) = Inr (Worker 100)
   \<and> newWorker interrupted (Itoa (int 1)) (Queues (workerSettings ready))
       = Inl (otherError ''hostname unavailable'')
   \<and> fst (Work interrupted scheduled) = Some (otherError ''hostname unavailable'')
   \<and> MonitorWait \<notin> set (since ready (snd (Work interrupted scheduled)))
   \<and> running (since ready (snd (Work interrupted scheduled))) = [Worker 100]"
proof -
  have poller: "newPoller crew (Queues (workerSettings ready)) (IsStrict (workerSettings ready))
      = Inr (Poller 0)"
    by (simp add: crew_def failover_def)
  from Work_completes [OF ready_Init(1) poller crew_workers]
  have returned: "fst (Work crew scheduled) = None"
    by simp
  with Work_waits_for_workers [of crew scheduled]
  have waited: "running (since scheduled (snd (Work crew scheduled))) = []"
    by blast
  have poller': "newPoller interrupted (Queues (workerSettings ready)) (IsStrict (workerSettings ready))
      = Inr (Poller 0)"
    by (simp add: interrupted_def crew_def failover_def)
  have count: "int 1 < sint (Concurrency (workerSettings ready))"
    by (simp add: ready_Init scenarioA_def)
  have first: "newWorker interrupted (Itoa (int 0)) (Queues (workerSettings ready)) = Inr (Worker 100)"
    by (simp add: interrupted_def Itoa_digits)
  then have before: "\<forall>i<1. newWorker interrupted (Itoa (int i)) (Queues (workerSettings ready))
      = Inr ((\<lambda>i. Worker 100) i)"
    by simp
  have second: "newWorker interrupted (Itoa (int 1)) (Queues (workerSettings ready))
      = Inl (otherError ''hostname unavailable'')"
    by (simp add: interrupted_def Itoa_digits)
  from Work_waits_for_workers [of interrupted scheduled ready "Poller 0" 1 "\<lambda>i. Worker 100"
      "otherError ''hostname unavailable''"] interrupted_Init poller' count before second
  have "fst (Work interrupted scheduled) = Some (otherError ''hostname unavailable'')"
    and "MonitorWait \<notin> set (since ready (snd (Work interrupted scheduled)))"
    and "running (since ready (snd (Work interrupted scheduled))) = map (\<lambda>i. Worker 100) [0..<1]"
    by blast+
  then show ?thesis
    using returned waited interrupted_Init poller' count first second by simp
qed

text \<open>
  C4 as stated fails when a worker cannot be built after another was started: \<open>Work\<close>
  returns the error and closes the pool without waiting on the barrier, and worker
  \<open>0\<close> has not been waited for.
\<close>

theorem Work_skips_barrier_counterexample:
  "fst (Init interrupted scheduled) = None
   \<and> sint (Concurrency (workerSettings scheduled)) = 3
   \<and> fst (Work interrupted scheduled) = Some (otherError ''hostname unavailable'')
   \<and> calls (snd (Work interrupted scheduled))
       = [LoggerFromWriterWithMinLevel, Flags,
          NewRedisPool (RedisSettings scenarioA) 2 2 Minute,
          Signals, NewPoller [''a'', ''b''] False,
          PollerPoll (Poller 0) 1000000000 signals,
          NewWorker ''0'' [''a'', ''b''],
          WorkerWork (Worker 100) (poll (Poller 0) 1000000000 signals),
          NewWorker ''1'' [''a'', ''b''],
          PoolClose]
   \<and> started (since scheduled (snd (Work interrupted scheduled))) = [Worker 100]
   \<and> running (since scheduled (snd (Work interrupted scheduled))) = [Worker 100]"
  by (simp add: Work_def Init_def Let_def record_call_def scheduled_def SetSettings_def fresh_def
      crew_def failover_def scenarioA_def zeroWorkerSettings_def interrupted_def Close_def
      Work_loop.simps Itoa_def formatDecimal.simps digitChar_def word_sless_alt
      since_def running_def)

end
